theory Spec2Isabelle
  imports Complex_Main
begin

section \<open>The face-embedding store of the Laberion face recognition service\<close>

text \<open>
  A shallow embedding of \<^verbatim>\<open>face_recognition_service/app.py\<close>. The module keeps three
  global variables (two parallel lists and a dictionary); every request handler reads and
  mutates them and, after a mutation, pickles them into one file. The handlers are modelled
  as functions from the globals and the file to a response, the new globals and the new
  file.

  The model starts where the handlers hold the result of \<^verbatim>\<open>detect_and_encode_faces\<close>: a
  request carries, for each uploaded image, the list of face encodings found in it. Of the
  image files, the model has the one write that can interrupt a mutation: the write of a
  batch image to its temporary file, inside the loop of \<^verbatim>\<open>/enroll_batch\<close>. Flask, the
  temporary file of \<^verbatim>\<open>/enroll\<close> (written before any mutation) and the archive of original
  images are outside the model.
  Numbers that Python holds as \<^verbatim>\<open>float\<close> are real numbers here, so rounding is not
  modelled. Lengths, counts and positions are natural numbers: the code only stores results
  of \<^verbatim>\<open>len\<close>, \<^verbatim>\<open>count\<close> and sums of them.
\<close>

subsection \<open>Data\<close>

type_synonym embedding = "real list"
type_synonym timestamp = string

text \<open>The value of \<^verbatim>\<open>known_face_metadata[worker_id]\<close>.\<close>

record metadata =
  first_enrolled :: timestamp
  last_enrolled :: timestamp
  total_faces :: nat
  enrollment_dates :: "timestamp list"

text \<open>The three module-level globals.\<close>

record face_index =
  known_face_encodings :: "embedding list"
  known_face_ids :: "int list"
  known_face_metadata :: "int \<rightharpoonup> metadata"

definition empty_index :: face_index where
  "empty_index =
     \<lparr>known_face_encodings = [], known_face_ids = [], known_face_metadata = Map.empty\<rparr>"

text \<open>The entries of \<^verbatim>\<open>CONFIG\<close> that the index and the matcher read.\<close>

record config =
  FACE_MATCH_THRESHOLD :: real
  MAX_FACES_PER_WORKER :: nat

definition CONFIG :: config where
  "CONFIG = \<lparr>FACE_MATCH_THRESHOLD = 6 / 10, MAX_FACES_PER_WORKER = 10\<rparr>"

datatype py_error = IndexError | ValueError | OSError

subsection \<open>Matching\<close>

text \<open>
  Modelled from the spec: \<^verbatim>\<open>face_recognition.face_distance\<close> belongs to an external
  library and is not part of the repository. The spec gives it as the Euclidean distance
  over the embedding components, computed from the query to every stored embedding. numpy
  raises on operands of different shapes; the model returns \<open>ValueError\<close> then.
\<close>

definition euclidean :: "embedding \<Rightarrow> embedding \<Rightarrow> real" where
  "euclidean a b = sqrt (\<Sum>(x, y) \<leftarrow> zip a b. (x - y)\<^sup>2)"

definition face_distance :: "embedding list \<Rightarrow> embedding \<Rightarrow> py_error + real list" where
  "face_distance face_encodings face_to_compare =
     (if list_all (\<lambda>e. length e = length face_to_compare) face_encodings
      then Inr (map (\<lambda>e. euclidean e face_to_compare) face_encodings)
      else Inl ValueError)"

text \<open>
  \<^verbatim>\<open>np.argmin\<close>: one scan from the left that keeps the position of the smallest value
  seen so far and replaces it only by a strictly smaller one, so the first minimum wins.
  On an empty array it raises.
\<close>

fun argmin_scan :: "real list \<Rightarrow> nat \<Rightarrow> nat \<Rightarrow> real \<Rightarrow> nat" where
  "argmin_scan [] i best v = best"
| "argmin_scan (x # xs) i best v =
     (if x < v then argmin_scan xs (Suc i) i x else argmin_scan xs (Suc i) best v)"

definition argmin :: "real list \<Rightarrow> py_error + nat" where
  "argmin ds = (case ds of [] \<Rightarrow> Inl ValueError | d # rest \<Rightarrow> Inr (argmin_scan rest 1 0 d))"

text \<open>
  \<^verbatim>\<open>find_best_match(face_encoding, threshold=None)\<close>. It has no handler of its own: an
  exception of \<^verbatim>\<open>face_distance\<close> or of \<^verbatim>\<open>known_face_ids[best_match_index]\<close> reaches
  the caller.
\<close>

definition find_best_match ::
  "config \<Rightarrow> face_index \<Rightarrow> embedding \<Rightarrow> real option \<Rightarrow> py_error + (int option \<times> real)" where
  "find_best_match cfg s face_encoding threshold_arg =
     (let threshold = (case threshold_arg of None \<Rightarrow> FACE_MATCH_THRESHOLD cfg | Some t \<Rightarrow> t) in
      if known_face_encodings s = [] then Inr (None, 0)
      else
        case face_distance (known_face_encodings s) face_encoding of
          Inl e \<Rightarrow> Inl e
        | Inr face_distances \<Rightarrow>
            (case argmin face_distances of
               Inl e \<Rightarrow> Inl e
             | Inr best_match_index \<Rightarrow>
                 (let best_distance = face_distances ! best_match_index;
                      confidence = 1 - best_distance
                  in if confidence \<ge> threshold
                     then (if best_match_index < length (known_face_ids s)
                           then Inr (Some (known_face_ids s ! best_match_index), confidence)
                           else Inl IndexError)
                     else Inr (None, confidence))))"

subsection \<open>The store file\<close>

text \<open>
  The dictionary that \<^verbatim>\<open>save_known_faces\<close> pickles. \<^verbatim>\<open>load_known_faces\<close> reads the key
  \<^verbatim>\<open>metadata\<close> with \<^verbatim>\<open>data.get('metadata', {})\<close>, so a file may lack it.
\<close>

record saved_data =
  sd_encodings :: "embedding list"
  sd_ids :: "int list"
  sd_metadata :: "(int \<rightharpoonup> metadata) option"
  sd_saved_at :: timestamp
  sd_version :: string

text \<open>
  What \<^verbatim>\<open>CONFIG['KNOWN_FACES_FILE']\<close> holds: either one complete pickle of such a
  dictionary, or content on which the \<^verbatim>\<open>try\<close> block of \<^verbatim>\<open>load_known_faces\<close> raises
  (among it the empty file and every file that ends before the pickle does). \<open>None\<close> is
  the missing file.
  \<^verbatim>\<open>pickle.load\<close> of what \<^verbatim>\<open>pickle.dump\<close> wrote gives the dictionary back; that is the
  library's contract and is built into the constructor \<open>Pickle\<close>.
\<close>

datatype file_content = Pickle saved_data | Unreadable

type_synonym store_file = "file_content option"

text \<open>What the disk does to one call of \<^verbatim>\<open>save_known_faces\<close>.\<close>

datatype disk_outcome = DiskOk | OpenFails | DumpFails

text \<open>
  \<^verbatim>\<open>open(path, 'wb')\<close> creates the file or cuts it to length zero; \<^verbatim>\<open>pickle.dump\<close> then
  writes the pickle into that same file.
\<close>

definition open_wb :: "store_file \<Rightarrow> store_file" where
  "open_wb f = Some Unreadable"

definition pickle_dump :: "saved_data \<Rightarrow> store_file \<Rightarrow> store_file" where
  "pickle_dump data f = Some (Pickle data)"

definition snapshot :: "timestamp \<Rightarrow> face_index \<Rightarrow> saved_data" where
  "snapshot saved_at s =
     \<lparr>sd_encodings = known_face_encodings s, sd_ids = known_face_ids s,
      sd_metadata = Some (known_face_metadata s), sd_saved_at = saved_at,
      sd_version = ''1.0''\<rparr>"

text \<open>
  \<^verbatim>\<open>save_known_faces()\<close>: returns \<^verbatim>\<open>True\<close>, or \<^verbatim>\<open>False\<close> when anything raised. A failing
  \<^verbatim>\<open>open\<close> leaves the file as it was; a failing \<^verbatim>\<open>pickle.dump\<close> leaves the file that
  \<^verbatim>\<open>open\<close> has already cut.
\<close>

definition save_known_faces ::
  "disk_outcome \<Rightarrow> timestamp \<Rightarrow> face_index \<Rightarrow> store_file \<Rightarrow> bool \<times> store_file" where
  "save_known_faces d saved_at s f =
     (let data = snapshot saved_at s in
      case d of
        OpenFails \<Rightarrow> (False, f)
      | DumpFails \<Rightarrow> (False, open_wb f)
      | DiskOk \<Rightarrow> (True, pickle_dump data (open_wb f)))"

text \<open>The contents of the file at the successive points of a save that does not fail.\<close>

definition save_trace :: "timestamp \<Rightarrow> face_index \<Rightarrow> store_file \<Rightarrow> store_file list" where
  "save_trace saved_at s f = [open_wb f, pickle_dump (snapshot saved_at s) (open_wb f)]"

datatype load_outcome = Loaded | LoadError | NoFile

text \<open>
  \<^verbatim>\<open>load_known_faces()\<close> assigns all three globals on every path; the outcome names the
  message it prints.
\<close>

definition load_known_faces :: "store_file \<Rightarrow> load_outcome \<times> face_index" where
  "load_known_faces f =
     (case f of
        None \<Rightarrow> (NoFile, empty_index)
      | Some Unreadable \<Rightarrow> (LoadError, empty_index)
      | Some (Pickle data) \<Rightarrow>
          (Loaded,
           \<lparr>known_face_encodings = sd_encodings data, known_face_ids = sd_ids data,
            known_face_metadata =
              (case sd_metadata data of None \<Rightarrow> Map.empty | Some m \<Rightarrow> m)\<rparr>))"

subsection \<open>Requests\<close>

text \<open>
  The surroundings of one request: \<open>now n\<close> is the \<open>n\<close>-th value of
  \<^verbatim>\<open>datetime.now().isoformat()\<close> that the handler reads from its metadata update on, and
  \<open>disk\<close> is what happens to its call of \<^verbatim>\<open>save_known_faces\<close>.
\<close>

record env =
  now :: "nat \<Rightarrow> timestamp"
  disk :: disk_outcome

text \<open>
  The form field \<^verbatim>\<open>worker_id\<close> after \<^verbatim>\<open>request.form.get\<close> and \<^verbatim>\<open>int\<close>: missing or
  empty, text on which \<^verbatim>\<open>int\<close> raises \<^verbatim>\<open>ValueError\<close>, or an integer.
\<close>

datatype form_int = NoValue | NotAnInteger | Integer int

record enroll_request =
  image_given :: bool
  worker_id_form :: form_int
  face_encodings :: "embedding list"

datatype enroll_response =
    NO_IMAGE
  | NO_WORKER_ID
  | INVALID_WORKER_ID
  | NO_FACE_DETECTED
  | MULTIPLE_FACES
  | MAX_FACES_REACHED nat
  | Enrolled (worker_id: int) (face_index: nat) (total_faces_for_worker: nat)
      (total_faces_in_system: nat)

text \<open>The \<^verbatim>\<open>/enroll\<close> handler, from the check of the uploaded image on.\<close>

definition enroll ::
  "config \<Rightarrow> env \<Rightarrow> enroll_request \<Rightarrow> face_index \<times> store_file \<Rightarrow>
   enroll_response \<times> face_index \<times> store_file" where
  "enroll cfg e rq st =
     (let s = fst st; f = snd st in
      if \<not> image_given rq then (NO_IMAGE, s, f)
      else
        case worker_id_form rq of
          NoValue \<Rightarrow> (NO_WORKER_ID, s, f)
        | NotAnInteger \<Rightarrow> (INVALID_WORKER_ID, s, f)
        | Integer w \<Rightarrow>
            if face_encodings rq = [] then (NO_FACE_DETECTED, s, f)
            else if length (face_encodings rq) > 1 then (MULTIPLE_FACES, s, f)
            else
              (let face_encoding = face_encodings rq ! 0;
                   worker_face_count = count_list (known_face_ids s) w
               in if worker_face_count \<ge> MAX_FACES_PER_WORKER cfg
                  then (MAX_FACES_REACHED worker_face_count, s, f)
                  else
                    (let encs = known_face_encodings s @ [face_encoding];
                         ids = known_face_ids s @ [w];
                         md = known_face_metadata s;
                         md' =
                           (case md w of
                              None \<Rightarrow>
                                md(w \<mapsto>
                                  \<lparr>first_enrolled = now e 0, last_enrolled = now e 1,
                                   total_faces = 1, enrollment_dates = [now e 2]\<rparr>)
                            | Some m \<Rightarrow>
                                md(w \<mapsto>
                                  m\<lparr>last_enrolled := now e 0,
                                    total_faces := worker_face_count + 1,
                                    enrollment_dates := enrollment_dates m @ [now e 1]\<rparr>));
                         s' = \<lparr>known_face_encodings = encs, known_face_ids = ids,
                               known_face_metadata = md'\<rparr>;
                         saved_at = now e (case md w of None \<Rightarrow> 3 | Some m \<Rightarrow> 2);
                         f' = snd (save_known_faces (disk e) saved_at s' f)
                     in (Enrolled w (length encs - 1) (worker_face_count + 1) (length encs),
                         s', f'))))"

datatype image_status = Success | Failed

text \<open>
  A batch request: the form field, the uploaded images (each given as the face encodings
  detected in it) and, when \<^verbatim>\<open>image_file.save(temp_path)\<close> raises for one of them, the
  index of that image.
\<close>

record batch_request =
  batch_worker_id :: form_int
  images :: "embedding list list"
  save_raises_at :: "nat option"

datatype batch_response =
    BatchNoWorkerId
  | BatchInternalError
  | BatchNoImages
  | BatchCompleted (batch_worker: int) (successful: nat) (failed: nat)
      (results: "(nat \<times> image_status) list") (batch_total_for_worker: nat)

text \<open>
  The loop of \<^verbatim>\<open>/enroll_batch\<close> over \<^verbatim>\<open>enumerate(images)\<close>. Each round first writes the
  image to a temporary file; when that raises, the loop ends there with what the earlier
  rounds have appended. Otherwise the round appends to the two lists and counts. The loop
  does not read \<^verbatim>\<open>CONFIG\<close> and does not touch the metadata.
\<close>

fun batch_loop ::
  "int \<Rightarrow> nat option \<Rightarrow> nat \<Rightarrow> embedding list list \<Rightarrow>
   embedding list \<times> int list \<times> nat \<times> nat \<times> (nat \<times> image_status) list \<Rightarrow>
   py_error option \<times>
   embedding list \<times> int list \<times> nat \<times> nat \<times> (nat \<times> image_status) list" where
  "batch_loop w raises_at i [] acc = (None, acc)"
| "batch_loop w raises_at i (fe # rest) (encs, ids, n_ok, n_failed, res) =
     (if raises_at = Some i then (Some OSError, (encs, ids, n_ok, n_failed, res))
      else if fe \<noteq> [] \<and> length fe = 1
      then batch_loop w raises_at (Suc i) rest
             (encs @ [fe ! 0], ids @ [w], n_ok + 1, n_failed, res @ [(i, Success)])
      else batch_loop w raises_at (Suc i) rest
             (encs, ids, n_ok, n_failed + 1, res @ [(i, Failed)]))"

text \<open>
  The \<^verbatim>\<open>/enroll_batch\<close> handler. \<^verbatim>\<open>int(worker_id)\<close> is not guarded here: its
  \<^verbatim>\<open>ValueError\<close> reaches the handler's \<^verbatim>\<open>except\<close>, and so does an exception of the
  loop. The \<^verbatim>\<open>except\<close> branch answers with status 500 and undoes nothing: the records
  appended before the exception stay, the metadata update and the save are not reached.
\<close>

definition enroll_batch ::
  "env \<Rightarrow> batch_request \<Rightarrow> face_index \<times> store_file \<Rightarrow>
   batch_response \<times> face_index \<times> store_file" where
  "enroll_batch e rq st =
     (let s = fst st; f = snd st in
      case batch_worker_id rq of
        NoValue \<Rightarrow> (BatchNoWorkerId, s, f)
      | NotAnInteger \<Rightarrow> (BatchInternalError, s, f)
      | Integer w \<Rightarrow>
          if images rq = [] then (BatchNoImages, s, f)
          else
            (case batch_loop w (save_raises_at rq) 0 (images rq)
                    (known_face_encodings s, known_face_ids s, 0, 0, []) of
               (raised, encs, ids, n_ok, n_failed, res) \<Rightarrow>
                 (case raised of
                    Some err \<Rightarrow>
                      (BatchInternalError,
                       \<lparr>known_face_encodings = encs, known_face_ids = ids,
                        known_face_metadata = known_face_metadata s\<rparr>, f)
                  | None \<Rightarrow>
                      if n_ok > 0
                      then
                        (let md = known_face_metadata s;
                             md' =
                               (case md w of
                                  None \<Rightarrow>
                                    md(w \<mapsto>
                                      \<lparr>first_enrolled = now e 0, last_enrolled = now e 1,
                                       total_faces = n_ok, enrollment_dates = [now e 2]\<rparr>)
                                | Some m \<Rightarrow>
                                    md(w \<mapsto>
                                      m\<lparr>last_enrolled := now e 0,
                                        total_faces := total_faces m + n_ok,
                                        enrollment_dates := enrollment_dates m @ [now e 1]\<rparr>));
                             s' = \<lparr>known_face_encodings = encs, known_face_ids = ids,
                                   known_face_metadata = md'\<rparr>;
                             saved_at = now e (case md w of None \<Rightarrow> 3 | Some m \<Rightarrow> 2);
                             f' = snd (save_known_faces (disk e) saved_at s' f)
                         in (BatchCompleted w n_ok n_failed res (count_list ids w), s', f'))
                      else
                        (BatchCompleted w n_ok n_failed res (count_list ids w),
                         \<lparr>known_face_encodings = encs, known_face_ids = ids,
                          known_face_metadata = known_face_metadata s\<rparr>, f))))"

datatype delete_response =
    DeleteNotFound
  | DeleteInternalError
  | Deleted (deleted_worker: int) (faces_deleted: nat)

text \<open>\<^verbatim>\<open>list.pop(index)\<close> for an index that is not negative; the popped value is dropped.\<close>

definition list_pop :: "'a list \<Rightarrow> nat \<Rightarrow> py_error + 'a list" where
  "list_pop xs index =
     (if index < length xs then Inr (take index xs @ drop (Suc index) xs) else Inl IndexError)"

text \<open>
  The removal loop of \<^verbatim>\<open>delete_worker_faces\<close>: at each index it pops the encoding, then
  the id. An exception leaves the globals as the pops made them so far.
\<close>

fun pop_loop :: "nat list \<Rightarrow> face_index \<Rightarrow> py_error option \<times> face_index" where
  "pop_loop [] s = (None, s)"
| "pop_loop (index # rest) s =
     (case list_pop (known_face_encodings s) index of
        Inl err \<Rightarrow> (Some err, s)
      | Inr encs \<Rightarrow>
          (case list_pop (known_face_ids s) index of
             Inl err \<Rightarrow> (Some err, s\<lparr>known_face_encodings := encs\<rparr>)
           | Inr ids \<Rightarrow>
               pop_loop rest (s\<lparr>known_face_encodings := encs, known_face_ids := ids\<rparr>)))"

definition indices_of :: "int \<Rightarrow> int list \<Rightarrow> nat list" where
  "indices_of w ids = [i \<leftarrow> [0..<length ids]. ids ! i = w]"

text \<open>The \<^verbatim>\<open>DELETE /worker/<id>/faces\<close> handler.\<close>

definition delete_worker_faces ::
  "env \<Rightarrow> int \<Rightarrow> face_index \<times> store_file \<Rightarrow> delete_response \<times> face_index \<times> store_file" where
  "delete_worker_faces e w st =
     (let s = fst st; f = snd st;
          indices_to_remove = indices_of w (known_face_ids s)
      in if indices_to_remove = [] then (DeleteNotFound, s, f)
         else
           case pop_loop (rev (sort indices_to_remove)) s of
             (Some err, s1) \<Rightarrow> (DeleteInternalError, s1, f)
           | (None, s1) \<Rightarrow>
               (let s2 = s1\<lparr>known_face_metadata := (known_face_metadata s1)(w := None)\<rparr>;
                    f' = snd (save_known_faces (disk e) (now e 0) s2 f)
                in (Deleted w (length indices_to_remove), s2, f')))"

subsection \<open>Sequences of requests\<close>

text \<open>
  The service starts with \<^verbatim>\<open>load_known_faces()\<close> and then serves requests one after the
  other; a restart loads again.
\<close>

datatype request =
    Enroll env enroll_request
  | EnrollBatch env batch_request
  | DeleteWorkerFaces env int
  | Restart

fun serve :: "config \<Rightarrow> request \<Rightarrow> face_index \<times> store_file \<Rightarrow> face_index \<times> store_file" where
  "serve cfg (Enroll e rq) st = snd (enroll cfg e rq st)"
| "serve cfg (EnrollBatch e rq) st = snd (enroll_batch e rq st)"
| "serve cfg (DeleteWorkerFaces e w) st = snd (delete_worker_faces e w st)"
| "serve cfg Restart st = (snd (load_known_faces (snd st)), snd st)"

fun run :: "config \<Rightarrow> request list \<Rightarrow> face_index \<times> store_file \<Rightarrow> face_index \<times> store_file" where
  "run cfg [] st = st"
| "run cfg (r # rs) st = run cfg rs (serve cfg r st)"

text \<open>A request during which no write of a temporary batch image raises.\<close>

fun completes :: "request \<Rightarrow> bool" where
  "completes (EnrollBatch e rq) \<longleftrightarrow> save_raises_at rq = None"
| "completes (Enroll e rq) \<longleftrightarrow> True"
| "completes (DeleteWorkerFaces e w) \<longleftrightarrow> True"
| "completes Restart \<longleftrightarrow> True"

text \<open>The state of a service started where no store file exists.\<close>

definition fresh :: "face_index \<times> store_file" where
  "fresh = (snd (load_known_faces None), None)"

subsection \<open>Notions used in the statements\<close>

text \<open>Position \<open>i\<close> holds a minimum of \<open>ds\<close> and no earlier position does.\<close>

definition first_min :: "real list \<Rightarrow> nat \<Rightarrow> bool" where
  "first_min ds i \<longleftrightarrow>
     i < length ds \<and> (\<forall>j<length ds. ds ! i \<le> ds ! j) \<and> (\<forall>j<i. ds ! i < ds ! j)"

text \<open>
  The two lists have the same length, and a worker has a metadata entry exactly when it
  has records, \<^verbatim>\<open>total_faces\<close> being their number.
\<close>

definition index_inv :: "face_index \<Rightarrow> bool" where
  "index_inv s \<longleftrightarrow>
     length (known_face_encodings s) = length (known_face_ids s) \<and>
     (\<forall>w. known_face_metadata s w = None \<longrightarrow> count_list (known_face_ids s) w = 0) \<and>
     (\<forall>w m. known_face_metadata s w = Some m \<longrightarrow>
        total_faces m = count_list (known_face_ids s) w \<and>
        0 < count_list (known_face_ids s) w)"

text \<open>
  The invariant of a running service: the index is consistent, and so is the index that a
  restart would load from the store file.
\<close>

definition service_inv :: "face_index \<times> store_file \<Rightarrow> bool" where
  "service_inv st \<longleftrightarrow> index_inv (fst st) \<and> index_inv (snd (load_known_faces (snd st)))"

text \<open>An uploaded image in which exactly one face was detected.\<close>

definition single :: "embedding list \<Rightarrow> bool" where
  "single fe \<longleftrightarrow> length fe = 1"

text \<open>The records as pairs of an encoding and its worker.\<close>

definition records :: "face_index \<Rightarrow> (embedding \<times> int) list" where
  "records s = zip (known_face_encodings s) (known_face_ids s)"

subsection \<open>Example states and requests\<close>

definition three_faces :: face_index where
  "three_faces =
     \<lparr>known_face_encodings = [[3 / 10, 0], [0, 4 / 10], [3 / 10, 0]],
      known_face_ids = [42, 7, 9], known_face_metadata = Map.empty\<rparr>"

definition far_face :: face_index where
  "far_face =
     \<lparr>known_face_encodings = [[3, 4]], known_face_ids = [7],
      known_face_metadata = Map.empty\<rparr>"

definition ten_faces :: face_index where
  "ten_faces =
     \<lparr>known_face_encodings = replicate 10 [0, 0], known_face_ids = replicate 10 42,
      known_face_metadata =
        [42 \<mapsto> \<lparr>first_enrolled = ''t0'', last_enrolled = ''t1'', total_faces = 10,
                 enrollment_dates = [''t2'']\<rparr>]\<rparr>"

definition mixed_faces :: face_index where
  "mixed_faces =
     \<lparr>known_face_encodings = [[1, 0], [0, 1], [1, 1]], known_face_ids = [42, 7, 42],
      known_face_metadata = Map.empty\<rparr>"

definition clock :: "nat \<Rightarrow> timestamp" where
  "clock n = (if n = 0 then ''t0'' else if n = 1 then ''t1'' else if n = 2 then ''t2'' else ''t3'')"

definition env_ok :: env where
  "env_ok = \<lparr>now = clock, disk = DiskOk\<rparr>"

definition env_disk_full :: env where
  "env_disk_full = \<lparr>now = clock, disk = DumpFails\<rparr>"

definition one_face :: "int \<Rightarrow> enroll_request" where
  "one_face w = \<lparr>image_given = True, worker_id_form = Integer w, face_encodings = [[0, 0]]\<rparr>"

definition batch_of :: "int \<Rightarrow> nat \<Rightarrow> batch_request" where
  "batch_of w n =
     \<lparr>batch_worker_id = Integer w, images = replicate n [[0, 0]], save_raises_at = None\<rparr>"

text \<open>Two images with one face each; the write of the second temporary file raises.\<close>

definition aborted_batch :: batch_request where
  "aborted_batch =
     \<lparr>batch_worker_id = Integer 42, images = replicate 2 [[0, 0]],
      save_raises_at = Some 1\<rparr>"

section \<open>Properties\<close>

subsection \<open>The scan for the nearest stored embedding\<close>

lemma first_min_snoc_less:
  assumes "first_min pre best" "x < pre ! best"
  shows "first_min (pre @ [x]) (length pre)"
  using assms unfolding first_min_def
  by (auto simp: nth_append less_Suc_eq)

lemma first_min_snoc_keep:
  assumes "first_min pre best" "\<not> x < pre ! best"
  shows "first_min (pre @ [x]) best"
  using assms unfolding first_min_def
  by (auto simp: nth_append less_Suc_eq)

lemma argmin_scan_first_min:
  "first_min pre best \<Longrightarrow>
   first_min (pre @ xs) (argmin_scan xs (length pre) best (pre ! best))"
proof (induction xs arbitrary: pre best)
  case Nil
  then show ?case by simp
next
  case (Cons x xs)
  show ?case
  proof (cases "x < pre ! best")
    case True
    from first_min_snoc_less[OF Cons.prems True]
    have "first_min (pre @ [x]) (length pre)" .
    from Cons.IH[OF this] True show ?thesis by simp
  next
    case False
    from first_min_snoc_keep[OF Cons.prems False]
    have fm: "first_min (pre @ [x]) best" .
    have "best < length pre" using Cons.prems by (simp add: first_min_def)
    then have "(pre @ [x]) ! best = pre ! best" by (simp add: nth_append)
    with Cons.IH[OF fm] False show ?thesis by simp
  qed
qed

lemma argmin_first_min:
  "ds \<noteq> [] \<Longrightarrow> \<exists>i. argmin ds = Inr i \<and> first_min ds i"
proof -
  assume "ds \<noteq> []"
  then obtain d rest where ds: "ds = d # rest" by (cases ds) auto
  have "first_min [d] 0" by (simp add: first_min_def)
  from argmin_scan_first_min[OF this, of rest]
  show ?thesis by (simp add: ds argmin_def)
qed

lemma first_min_Min: "first_min ds i \<Longrightarrow> ds ! i = Min (set ds)"
  unfolding first_min_def
  by (intro Min_eqI[symmetric]) (auto simp: in_set_conv_nth)


lemma find_best_match_nonempty:
  assumes ne: "known_face_encodings s \<noteq> []"
    and dims: "list_all (\<lambda>e. length e = length q) (known_face_encodings s)"
  shows "\<exists>i. first_min (map (\<lambda>e. euclidean e q) (known_face_encodings s)) i \<and>
           find_best_match cfg s q th =
             (let confidence = 1 - euclidean (known_face_encodings s ! i) q;
                  threshold = (case th of None \<Rightarrow> FACE_MATCH_THRESHOLD cfg | Some t \<Rightarrow> t)
              in if confidence \<ge> threshold
                 then (if i < length (known_face_ids s)
                       then Inr (Some (known_face_ids s ! i), confidence)
                       else Inl IndexError)
                 else Inr (None, confidence))"
proof -
  let ?ds = "map (\<lambda>e. euclidean e q) (known_face_encodings s)"
  have fd: "face_distance (known_face_encodings s) q = Inr ?ds"
    using dims by (simp add: face_distance_def)
  have "?ds \<noteq> []" using ne by simp
  from argmin_first_min[OF this] obtain i where
    am: "argmin ?ds = Inr i" and fm: "first_min ?ds i" by blast
  have "i < length (known_face_encodings s)" using fm by (simp add: first_min_def)
  then have nth: "?ds ! i = euclidean (known_face_encodings s ! i) q" by simp
  have "find_best_match cfg s q th =
             (let confidence = 1 - euclidean (known_face_encodings s ! i) q;
                  threshold = (case th of None \<Rightarrow> FACE_MATCH_THRESHOLD cfg | Some t \<Rightarrow> t)
              in if confidence \<ge> threshold
                 then (if i < length (known_face_ids s)
                       then Inr (Some (known_face_ids s ! i), confidence)
                       else Inl IndexError)
                 else Inr (None, confidence))"
    unfolding find_best_match_def using ne by (simp add: fd am nth Let_def)
  with fm show ?thesis by blast
qed

lemma three_faces_dist:
  "map (\<lambda>e. euclidean e [0, 0]) (known_face_encodings three_faces) = [3 / 10, 4 / 10, 3 / 10]"
  by (simp add: three_faces_def euclidean_def real_sqrt_divide power2_eq_square)

lemma first_min_three_faces: "first_min [3 / 10, 4 / 10, 3 / 10] i \<longleftrightarrow> i = 0"
  by (auto simp: first_min_def less_Suc_eq nth_Cons' numeral_3_eq_3)


text \<open>
  Claim C5. On an empty index \<open>find_best_match\<close> returns \<open>(None, 0.0)\<close> for every query
  and threshold. On a non-empty index (with encodings of the query's dimension and the two
  lists in lock-step) it takes the Euclidean distance from the query to every stored
  embedding, picks the first position of the minimum distance, sets the confidence to one
  minus that distance, and returns the worker at that position with the confidence when the
  confidence reaches the threshold, and \<open>None\<close> with the same confidence otherwise.
\<close>

theorem find_best_match_nearest:
  "(known_face_encodings s = [] \<longrightarrow> find_best_match cfg s q th = Inr (None, 0)) \<and>
   (known_face_encodings s \<noteq> [] \<and>
    list_all (\<lambda>e. length e = length q) (known_face_encodings s) \<and>
    length (known_face_ids s) = length (known_face_encodings s) \<longrightarrow>
      (\<exists>i. first_min (map (\<lambda>e. euclidean e q) (known_face_encodings s)) i \<and>
           euclidean (known_face_encodings s ! i) q =
             Min ((\<lambda>e. euclidean e q) ` set (known_face_encodings s)) \<and>
           find_best_match cfg s q th =
             (let confidence = 1 - euclidean (known_face_encodings s ! i) q;
                  threshold = (case th of None \<Rightarrow> FACE_MATCH_THRESHOLD cfg | Some t \<Rightarrow> t)
              in if confidence \<ge> threshold
                 then Inr (Some (known_face_ids s ! i), confidence)
                 else Inr (None, confidence))))"
proof (intro conjI impI)
  assume "known_face_encodings s = []"
  then show "find_best_match cfg s q th = Inr (None, 0)"
    by (simp add: find_best_match_def)
next
  assume a: "known_face_encodings s \<noteq> [] \<and>
    list_all (\<lambda>e. length e = length q) (known_face_encodings s) \<and>
    length (known_face_ids s) = length (known_face_encodings s)"
  let ?ds = "map (\<lambda>e. euclidean e q) (known_face_encodings s)"
  from a find_best_match_nonempty[of s q cfg th] obtain i where
    fm: "first_min ?ds i" and
    eq: "find_best_match cfg s q th =
             (let confidence = 1 - euclidean (known_face_encodings s ! i) q;
                  threshold = (case th of None \<Rightarrow> FACE_MATCH_THRESHOLD cfg | Some t \<Rightarrow> t)
              in if confidence \<ge> threshold
                 then (if i < length (known_face_ids s)
                       then Inr (Some (known_face_ids s ! i), confidence)
                       else Inl IndexError)
                 else Inr (None, confidence))" by blast
  have i: "i < length (known_face_ids s)" using fm a by (simp add: first_min_def)
  have "?ds ! i = Min (set ?ds)" by (rule first_min_Min[OF fm])
  then have mn: "euclidean (known_face_encodings s ! i) q =
             Min ((\<lambda>e. euclidean e q) ` set (known_face_encodings s))"
    using i a by simp
  from eq i have "find_best_match cfg s q th =
             (let confidence = 1 - euclidean (known_face_encodings s ! i) q;
                  threshold = (case th of None \<Rightarrow> FACE_MATCH_THRESHOLD cfg | Some t \<Rightarrow> t)
              in if confidence \<ge> threshold
                 then Inr (Some (known_face_ids s ! i), confidence)
                 else Inr (None, confidence))" by (simp add: Let_def)
  with fm mn show "\<exists>i. first_min ?ds i \<and>
           euclidean (known_face_encodings s ! i) q =
             Min ((\<lambda>e. euclidean e q) ` set (known_face_encodings s)) \<and>
           find_best_match cfg s q th =
             (let confidence = 1 - euclidean (known_face_encodings s ! i) q;
                  threshold = (case th of None \<Rightarrow> FACE_MATCH_THRESHOLD cfg | Some t \<Rightarrow> t)
              in if confidence \<ge> threshold
                 then Inr (Some (known_face_ids s ! i), confidence)
                 else Inr (None, confidence))" by blast
qed

theorem find_best_match_nearest_witness:
  "find_best_match CONFIG empty_index [0, 0] None = Inr (None, 0) \<and>
   find_best_match CONFIG three_faces [0, 0] None = Inr (Some 42, 7 / 10) \<and>
   find_best_match CONFIG three_faces [0, 0] (Some (8 / 10)) = Inr (None, 7 / 10)"
proof -
  have e: "known_face_encodings empty_index = []" by (simp add: empty_index_def)
  have h: "known_face_encodings three_faces \<noteq> [] \<and>
    list_all (\<lambda>e. length e = length [0::real, 0]) (known_face_encodings three_faces) \<and>
    length (known_face_ids three_faces) = length (known_face_encodings three_faces)"
    by (simp add: three_faces_def)
  have d: "euclidean (known_face_encodings three_faces ! 0) [0, 0] = 3 / 10"
    by (simp add: three_faces_def euclidean_def real_sqrt_divide power2_eq_square)
  have i0: "known_face_ids three_faces ! 0 = 42" by (simp add: three_faces_def)
  have 1: "find_best_match CONFIG empty_index [0, 0] None = Inr (None, 0)"
    using find_best_match_nearest[of empty_index CONFIG "[0, 0]" None] e by blast
  have 2: "find_best_match CONFIG three_faces [0, 0] None = Inr (Some 42, 7 / 10)"
  proof -
    from find_best_match_nearest[of three_faces CONFIG "[0, 0]" None] h
    obtain i where fm: "first_min (map (\<lambda>e. euclidean e [0, 0]) (known_face_encodings three_faces)) i"
      and eq: "find_best_match CONFIG three_faces [0, 0] None =
             (let confidence = 1 - euclidean (known_face_encodings three_faces ! i) [0, 0];
                  threshold = (case None of None \<Rightarrow> FACE_MATCH_THRESHOLD CONFIG | Some t \<Rightarrow> t)
              in if confidence \<ge> threshold
                 then Inr (Some (known_face_ids three_faces ! i), confidence)
                 else Inr (None, confidence))" by blast
    have "i = 0" using fm unfolding three_faces_dist by (simp only: first_min_three_faces)
    with eq d i0 show ?thesis by (simp add: CONFIG_def)
  qed
  have 3: "find_best_match CONFIG three_faces [0, 0] (Some (8 / 10)) = Inr (None, 7 / 10)"
  proof -
    from find_best_match_nearest[of three_faces CONFIG "[0, 0]" "Some (8 / 10)"] h
    obtain i where fm: "first_min (map (\<lambda>e. euclidean e [0, 0]) (known_face_encodings three_faces)) i"
      and eq: "find_best_match CONFIG three_faces [0, 0] (Some (8 / 10)) =
             (let confidence = 1 - euclidean (known_face_encodings three_faces ! i) [0, 0];
                  threshold = (case Some (8 / 10) of None \<Rightarrow> FACE_MATCH_THRESHOLD CONFIG | Some t \<Rightarrow> t)
              in if confidence \<ge> threshold
                 then Inr (Some (known_face_ids three_faces ! i), confidence)
                 else Inr (None, confidence))" by blast
    have "i = 0" using fm unfolding three_faces_dist by (simp only: first_min_three_faces)
    with eq d i0 show ?thesis by simp
  qed
  from 1 2 3 show ?thesis by blast
qed


text \<open>
  Claim C10. The confidence is one minus the smallest distance and is not clamped: when
  the smallest distance from the query to the stored embeddings exceeds one, the returned
  confidence is strictly negative. The witness below is such an index and query.
\<close>

theorem find_best_match_confidence_unclamped:
  assumes "known_face_encodings s \<noteq> []"
    and "face_distance (known_face_encodings s) q = Inr ds"
    and "length (known_face_ids s) = length (known_face_encodings s)"
    and "1 < Min (set ds)"
  shows "\<exists>w. find_best_match cfg s q th = Inr (w, 1 - Min (set ds)) \<and> 1 - Min (set ds) < 0"
proof -
  have dims: "list_all (\<lambda>e. length e = length q) (known_face_encodings s)"
    using assms(2) by (simp add: face_distance_def split: if_splits)
  then have ds: "ds = map (\<lambda>e. euclidean e q) (known_face_encodings s)"
    using assms(2) by (simp add: face_distance_def)
  from find_best_match_nonempty[OF assms(1) dims, of cfg th] obtain i where
    fm: "first_min ds i" and
    eq: "find_best_match cfg s q th =
             (let confidence = 1 - euclidean (known_face_encodings s ! i) q;
                  threshold = (case th of None \<Rightarrow> FACE_MATCH_THRESHOLD cfg | Some t \<Rightarrow> t)
              in if confidence \<ge> threshold
                 then (if i < length (known_face_ids s)
                       then Inr (Some (known_face_ids s ! i), confidence)
                       else Inl IndexError)
                 else Inr (None, confidence))" unfolding ds by blast
  have i: "i < length (known_face_ids s)" using fm assms(3) by (simp add: first_min_def ds)
  have "ds ! i = Min (set ds)" by (rule first_min_Min[OF fm])
  then have mn: "euclidean (known_face_encodings s ! i) q = Min (set ds)"
    using i assms(3) by (simp add: ds)
  from eq i mn have "\<exists>w. find_best_match cfg s q th = Inr (w, 1 - Min (set ds))"
    by (simp add: Let_def)
  with assms(4) show ?thesis by simp
qed

theorem find_best_match_confidence_unclamped_witness:
  "known_face_encodings far_face \<noteq> [] \<and>
   face_distance (known_face_encodings far_face) [0, 0] = Inr [5] \<and>
   (\<exists>w. find_best_match CONFIG far_face [0, 0] None = Inr (w, - 4)) \<and> (- 4 :: real) < 0"
proof -
  have 1: "known_face_encodings far_face \<noteq> []" by (simp add: far_face_def)
  have 2: "face_distance (known_face_encodings far_face) [0, 0] = Inr [5]"
    by (simp add: far_face_def face_distance_def euclidean_def)
  have 3: "length (known_face_ids far_face) = length (known_face_encodings far_face)"
    by (simp add: far_face_def)
  have 4: "1 < Min (set [5::real])" by simp
  from find_best_match_confidence_unclamped[OF 1 2 3 4, of CONFIG None]
  show ?thesis using 1 2 by simp
qed

subsection \<open>Saving and loading\<close>

lemma fresh_eq: "fresh = (empty_index, None)"
  by (simp add: fresh_def load_known_faces_def)

text \<open>
  Claim C8. Loading what a save has written succeeds and gives back the index that was
  saved: the same encodings in the same order, the same worker ids beside them and the same
  metadata map. A save on a working disk reports success, and whenever a save reports
  success the load that follows returns the saved index.
\<close>

theorem load_after_save:
  "fst (save_known_faces DiskOk t s f) \<and>
   (fst (save_known_faces d t s f) \<longrightarrow>
      load_known_faces (snd (save_known_faces d t s f)) = (Loaded, s))"
  by (cases d) (simp_all add: save_known_faces_def load_known_faces_def pickle_dump_def
      open_wb_def snapshot_def)

theorem load_after_save_witness:
  "fst (save_known_faces DiskOk ''t0'' three_faces None) \<and>
   load_known_faces (snd (save_known_faces DiskOk ''t0'' three_faces None)) = (Loaded, three_faces)"
  using load_after_save[of "''t0''" three_faces None DiskOk] by simp

text \<open>
  Claim C3, as the spec states it: no point of a save lets a load see anything but the
  old or the new snapshot. The code opens the store file itself for writing, so between
  \<^verbatim>\<open>open\<close> and the end of \<^verbatim>\<open>pickle.dump\<close> the file is neither: with a stored index of
  three faces and a save of another index under way, a load at the first point of the save
  finds an unreadable file.
\<close>

theorem save_in_place_counterexample:
  "\<not> (\<forall>f' \<in> set (save_trace ''t1'' far_face (Some (Pickle (snapshot ''t0'' three_faces)))).
        load_known_faces f' = (Loaded, three_faces) \<or> load_known_faces f' = (Loaded, far_face))"
  by (simp add: save_trace_def open_wb_def load_known_faces_def)

text \<open>
  Claim C3, amended. A save writes in place: it first cuts the store file, then writes the
  pickle into it; there is no temporary file. A load after the completed save returns the
  saved index. A load at the point in between, which is also where a failed
  \<^verbatim>\<open>pickle.dump\<close> leaves the file, finds it unreadable and starts from the empty index.
\<close>

theorem save_in_place:
  "save_trace t s f = [Some Unreadable, snd (save_known_faces DiskOk t s f)] \<and>
   snd (save_known_faces DumpFails t s f) = save_trace t s f ! 0 \<and>
   load_known_faces (save_trace t s f ! 0) = (LoadError, empty_index) \<and>
   load_known_faces (save_trace t s f ! 1) = (Loaded, s)"
  by (simp add: save_trace_def save_known_faces_def load_known_faces_def pickle_dump_def
      open_wb_def snapshot_def)

theorem save_in_place_witness:
  "load_known_faces (save_trace ''t1'' far_face (Some (Pickle (snapshot ''t0'' three_faces))) ! 0)
     = (LoadError, empty_index) \<and>
   load_known_faces (save_trace ''t1'' far_face (Some (Pickle (snapshot ''t0'' three_faces))) ! 1)
     = (Loaded, far_face)"
  using save_in_place[of "''t1''" far_face "Some (Pickle (snapshot ''t0'' three_faces))"]
  by blast

subsection \<open>Enrolment\<close>

lemma batch_loop_result:
  "batch_loop w None i imgs (encs, ids, a, b, res) =
     (None, encs @ map (\<lambda>fe. fe ! 0) (filter single imgs),
      ids @ replicate (length (filter single imgs)) w,
      a + length (filter single imgs),
      b + length (filter (\<lambda>fe. \<not> single fe) imgs),
      res @ map (\<lambda>(j, fe). (j, if single fe then Success else Failed))
              (zip [i..<i + length imgs] imgs))"
proof (induction imgs arbitrary: i encs ids a b res)
  case Nil
  then show ?case by simp
next
  case (Cons fe imgs)
  have upt: "[i..<Suc (i + length imgs)] = i # [Suc i..<Suc (i + length imgs)]"
    by (rule upt_conv_Cons) simp
  show ?case
  proof (cases "single fe")
    case True
    then have "fe \<noteq> [] \<and> length fe = 1" by (auto simp: single_def)
    then show ?thesis using True
      by (simp add: Cons.IH upt replicate_app_Cons_same del: upt_Suc)
  next
    case False
    then have "\<not> (fe \<noteq> [] \<and> length fe = 1)" by (auto simp: single_def)
    then show ?thesis using False
      by (simp add: Cons.IH upt del: upt_Suc)
  qed
qed

lemma count_list_replicate: "count_list (replicate n x) y = (if x = y then n else 0)"
  by (induction n) auto

lemma enroll_success:
  assumes "image_given rq" and "worker_id_form rq = Integer w"
    and "face_encodings rq = [fe]"
    and "count_list (known_face_ids s) w < MAX_FACES_PER_WORKER cfg"
  shows "enroll cfg e rq (s, f) =
    (Enrolled w (length (known_face_encodings s)) (count_list (known_face_ids s) w + 1)
       (length (known_face_encodings s) + 1),
     \<lparr>known_face_encodings = known_face_encodings s @ [fe],
      known_face_ids = known_face_ids s @ [w],
      known_face_metadata =
        (case known_face_metadata s w of
           None \<Rightarrow> (known_face_metadata s)(w \<mapsto>
              \<lparr>first_enrolled = now e 0, last_enrolled = now e 1,
               total_faces = 1, enrollment_dates = [now e 2]\<rparr>)
         | Some m \<Rightarrow> (known_face_metadata s)(w \<mapsto>
              m\<lparr>last_enrolled := now e 0,
                total_faces := count_list (known_face_ids s) w + 1,
                enrollment_dates := enrollment_dates m @ [now e 1]\<rparr>))\<rparr>,
     snd (save_known_faces (disk e)
        (now e (case known_face_metadata s w of None \<Rightarrow> 3 | Some m \<Rightarrow> 2))
        \<lparr>known_face_encodings = known_face_encodings s @ [fe],
      known_face_ids = known_face_ids s @ [w],
      known_face_metadata =
        (case known_face_metadata s w of
           None \<Rightarrow> (known_face_metadata s)(w \<mapsto>
              \<lparr>first_enrolled = now e 0, last_enrolled = now e 1,
               total_faces = 1, enrollment_dates = [now e 2]\<rparr>)
         | Some m \<Rightarrow> (known_face_metadata s)(w \<mapsto>
              m\<lparr>last_enrolled := now e 0,
                total_faces := count_list (known_face_ids s) w + 1,
                enrollment_dates := enrollment_dates m @ [now e 1]\<rparr>))\<rparr> f))"
  using assms by (simp add: enroll_def Let_def)

lemma enroll_batch_success:
  assumes "batch_worker_id rq = Integer w"
    and "0 < length (filter single (images rq))"
    and "save_raises_at rq = None"
  shows "enroll_batch e rq (s, f) =
    (BatchCompleted w (length (filter single (images rq)))
        (length (filter (\<lambda>fe. \<not> single fe) (images rq)))
        (map (\<lambda>(j, fe). (j, if single fe then Success else Failed))
              (zip [0..<length (images rq)] (images rq)))
        (count_list (known_face_ids s) w + length (filter single (images rq))),
     \<lparr>known_face_encodings = known_face_encodings s @ map (\<lambda>fe. fe ! 0) (filter single (images rq)),
      known_face_ids = known_face_ids s @ replicate (length (filter single (images rq))) w,
      known_face_metadata =
        (case known_face_metadata s w of
           None \<Rightarrow> (known_face_metadata s)(w \<mapsto>
              \<lparr>first_enrolled = now e 0, last_enrolled = now e 1,
               total_faces = length (filter single (images rq)), enrollment_dates = [now e 2]\<rparr>)
         | Some m \<Rightarrow> (known_face_metadata s)(w \<mapsto>
              m\<lparr>last_enrolled := now e 0,
                total_faces := total_faces m + length (filter single (images rq)),
                enrollment_dates := enrollment_dates m @ [now e 1]\<rparr>))\<rparr>,
     snd (save_known_faces (disk e)
        (now e (case known_face_metadata s w of None \<Rightarrow> 3 | Some m \<Rightarrow> 2))
        \<lparr>known_face_encodings = known_face_encodings s @ map (\<lambda>fe. fe ! 0) (filter single (images rq)),
      known_face_ids = known_face_ids s @ replicate (length (filter single (images rq))) w,
      known_face_metadata =
        (case known_face_metadata s w of
           None \<Rightarrow> (known_face_metadata s)(w \<mapsto>
              \<lparr>first_enrolled = now e 0, last_enrolled = now e 1,
               total_faces = length (filter single (images rq)), enrollment_dates = [now e 2]\<rparr>)
         | Some m \<Rightarrow> (known_face_metadata s)(w \<mapsto>
              m\<lparr>last_enrolled := now e 0,
                total_faces := total_faces m + length (filter single (images rq)),
                enrollment_dates := enrollment_dates m @ [now e 1]\<rparr>))\<rparr> f))"
proof -
  from assms(2) have ne: "images rq \<noteq> []" by auto
  show ?thesis using assms ne
    by (simp add: enroll_batch_def batch_loop_result Let_def count_list_append
        count_list_replicate)
qed

lemma enroll_batch_none:
  assumes "batch_worker_id rq = Integer w"
    and "filter single (images rq) = []"
    and "save_raises_at rq = None"
  shows "fst (snd (enroll_batch e rq (s, f))) = s \<and> snd (snd (enroll_batch e rq (s, f))) = f"
  using assms by (simp add: enroll_batch_def batch_loop_result Let_def)

lemma enroll_failure_unchanged:
  "\<not> (\<exists>w fe. image_given rq \<and> worker_id_form rq = Integer w \<and> face_encodings rq = [fe] \<and>
        count_list (known_face_ids s) w < MAX_FACES_PER_WORKER cfg) \<Longrightarrow>
   snd (enroll cfg e rq (s, f)) = (s, f)"
  by (cases "face_encodings rq"; cases "worker_id_form rq")
     (auto simp: enroll_def Let_def not_less split: form_int.splits)

text \<open>
  Claim C7. An enrolment of one detected face for a worker who already holds
  \<open>MAX_FACES_PER_WORKER\<close> records (or more) is answered with \<open>MAX_FACES_REACHED\<close>, and
  the two lists, the metadata map and the store file stay as they were.
\<close>

theorem enroll_at_capacity:
  assumes "image_given rq" and "worker_id_form rq = Integer w"
    and "face_encodings rq = [fe]"
    and "MAX_FACES_PER_WORKER cfg \<le> count_list (known_face_ids s) w"
  shows "enroll cfg e rq (s, f) = (MAX_FACES_REACHED (count_list (known_face_ids s) w), s, f)"
  using assms by (simp add: enroll_def)

theorem enroll_at_capacity_witness:
  "enroll CONFIG env_ok (one_face 42) (ten_faces, None) =
     (MAX_FACES_REACHED 10, ten_faces, None)"
  using enroll_at_capacity[of "one_face 42" 42 "[0, 0]" CONFIG ten_faces env_ok None]
  by (simp add: one_face_def CONFIG_def ten_faces_def count_list_replicate)

text \<open>
  Claim C1, evaluated where it fails. \<open>enroll_batch\<close> never compares a count with
  \<open>MAX_FACES_PER_WORKER\<close>: a batch of eleven images with one face each, sent to a fresh
  service for worker 7, is answered with eleven successes and leaves eleven records of
  worker 7, one more than the limit of ten that \<open>enroll\<close> enforces.
\<close>

theorem batch_exceeds_cap:
  "fst (enroll_batch env_ok (batch_of 7 11) fresh) =
     BatchCompleted 7 11 0 (map (\<lambda>j. (j, Success)) [0..<11]) 11 \<and>
   count_list (known_face_ids (fst (snd (enroll_batch env_ok (batch_of 7 11) fresh)))) 7 = 11 \<and>
   MAX_FACES_PER_WORKER CONFIG = 10"
proof -
  have f: "filter single (replicate 11 [[0, 0]]) = replicate 11 [[0, 0]]"
    by (simp add: single_def)
  have nf: "filter (\<lambda>fe. \<not> single fe) (replicate 11 [[0, 0]]) = []"
    by (simp add: single_def)
  have r: "map (\<lambda>(j, fe). (j, if single fe then Success else Failed))
              (zip [0..<0 + length (replicate 11 [[0::real, 0]])] (replicate 11 [[0, 0]])) =
           map (\<lambda>j. (j, Success)) [0..<11]"
    by (simp add: single_def list_eq_iff_nth_eq)
  have loop: "batch_loop 7 None 0 (replicate 11 [[0, 0]]) ([], [], 0, 0, []) =
     (None, replicate 11 [0, 0], replicate 11 7, 11, 0, map (\<lambda>j. (j, Success)) [0..<11])"
    unfolding batch_loop_result f nf r by simp
  show ?thesis
    by (simp add: enroll_batch_def batch_of_def fresh_eq empty_index_def loop CONFIG_def Let_def
        count_list_replicate)
qed

text \<open>
  Claim C2, as the spec states it: a failed save shows in the response. Here the disk
  fails during the save of an enrolment; \<open>save_known_faces\<close> returns \<open>False\<close>, and the
  response is the one that the same request gets when the save succeeds.
\<close>

theorem persistence_warning_counterexample:
  "\<not> fst (save_known_faces (disk env_disk_full) (now env_disk_full 3)
          (fst (snd (enroll CONFIG env_disk_full (one_face 42) fresh))) (snd fresh)) \<and>
   fst (enroll CONFIG env_disk_full (one_face 42) fresh) = Enrolled 42 0 1 1 \<and>
   fst (enroll CONFIG env_ok (one_face 42) fresh) = Enrolled 42 0 1 1"
  by (simp add: enroll_def fresh_eq empty_index_def one_face_def env_disk_full_def env_ok_def
      CONFIG_def save_known_faces_def Let_def)

text \<open>
  Claim C2, amended. When the save fails after the in-memory change of \<open>enroll\<close>,
  \<open>enroll_batch\<close> or \<open>delete_worker_faces\<close>, the change is kept and the response is the very
  response of a successful save: the handlers drop the value \<open>save_known_faces\<close> returns,
  so the response and the new index do not depend on what the disk did.
\<close>

theorem save_failure_silent:
  "fst (enroll cfg (e\<lparr>disk := d\<rparr>) rq st) = fst (enroll cfg e rq st) \<and>
   fst (snd (enroll cfg (e\<lparr>disk := d\<rparr>) rq st)) = fst (snd (enroll cfg e rq st)) \<and>
   fst (enroll_batch (e\<lparr>disk := d\<rparr>) brq st) = fst (enroll_batch e brq st) \<and>
   fst (snd (enroll_batch (e\<lparr>disk := d\<rparr>) brq st)) = fst (snd (enroll_batch e brq st)) \<and>
   fst (delete_worker_faces (e\<lparr>disk := d\<rparr>) w st) = fst (delete_worker_faces e w st) \<and>
   fst (snd (delete_worker_faces (e\<lparr>disk := d\<rparr>) w st)) = fst (snd (delete_worker_faces e w st))"
  by (simp add: enroll_def enroll_batch_def delete_worker_faces_def Let_def
      split: form_int.splits prod.splits option.splits)

theorem save_failure_silent_witness:
  "fst (enroll CONFIG env_disk_full (one_face 42) fresh) =
     fst (enroll CONFIG env_ok (one_face 42) fresh) \<and>
   fst (snd (enroll CONFIG env_disk_full (one_face 42) fresh)) =
     fst (snd (enroll CONFIG env_ok (one_face 42) fresh))"
  using save_failure_silent[where cfg = CONFIG and e = env_ok and d = DumpFails
      and rq = "one_face 42" and st = fresh]
  by (simp add: env_ok_def env_disk_full_def)

subsection \<open>Timestamps of enrolments\<close>

lemma batch_of_single: "filter single (images (batch_of w n)) = replicate n [[0, 0]]"
  by (simp add: batch_of_def single_def)

lemma one_enrolled:
  "enroll CONFIG env_ok (one_face 42) fresh =
     (Enrolled 42 0 1 1,
      \<lparr>known_face_encodings = [[0, 0]], known_face_ids = [42],
       known_face_metadata =
         [42 \<mapsto> \<lparr>first_enrolled = ''t0'', last_enrolled = ''t1'', total_faces = 1,
                  enrollment_dates = [''t2'']\<rparr>]\<rparr>,
      Some (Pickle (snapshot ''t3''
        \<lparr>known_face_encodings = [[0, 0]], known_face_ids = [42],
       known_face_metadata =
         [42 \<mapsto> \<lparr>first_enrolled = ''t0'', last_enrolled = ''t1'', total_faces = 1,
                  enrollment_dates = [''t2'']\<rparr>]\<rparr>)))"
  by (simp add: enroll_def fresh_eq empty_index_def one_face_def env_ok_def CONFIG_def
      save_known_faces_def pickle_dump_def clock_def Let_def)

text \<open>
  Claim C9. For a worker who has a metadata entry, a batch with \<open>k \<ge> 1\<close> enrolled images
  (a batch that runs to its end: no write of a temporary image raises) appends one
  timestamp to \<open>enrollment_dates\<close> and adds \<open>k\<close> to \<open>total_faces\<close>. A single
  successful enrolment leaves the worker with one timestamp more than before (one
  timestamp for a new worker). So there are request sequences after which a worker has
  fewer enrolment dates than faces: one batch of two images on a fresh service.
\<close>

theorem enrollment_dates_per_call:
  "(batch_worker_id brq = Integer w \<and> known_face_metadata s w = Some m \<and>
    1 \<le> length (filter single (images brq)) \<and> save_raises_at brq = None \<longrightarrow>
      known_face_metadata (fst (snd (enroll_batch e brq (s, f)))) w =
        Some (m\<lparr>last_enrolled := now e 0,
                total_faces := total_faces m + length (filter single (images brq)),
                enrollment_dates := enrollment_dates m @ [now e 1]\<rparr>)) \<and>
   (image_given rq \<and> worker_id_form rq = Integer w \<and> face_encodings rq = [fe] \<and>
    count_list (known_face_ids s) w < MAX_FACES_PER_WORKER cfg \<longrightarrow>
      (\<exists>m'. known_face_metadata (fst (snd (enroll cfg e rq (s, f)))) w = Some m' \<and>
         enrollment_dates m' =
           (case known_face_metadata s w of
              None \<Rightarrow> [now e 2]
            | Some m0 \<Rightarrow> enrollment_dates m0 @ [now e 1]))) \<and>
   (\<exists>rs m'. known_face_metadata (fst (run CONFIG rs fresh)) 42 = Some m' \<and>
       length (enrollment_dates m') < total_faces m')"
proof (intro conjI impI)
  assume a: "batch_worker_id brq = Integer w \<and> known_face_metadata s w = Some m \<and>
    1 \<le> length (filter single (images brq)) \<and> save_raises_at brq = None"
  then have pos: "0 < length (filter single (images brq))" by linarith
  from a have nr: "save_raises_at brq = None" by simp
  from a show "known_face_metadata (fst (snd (enroll_batch e brq (s, f)))) w =
        Some (m\<lparr>last_enrolled := now e 0,
                total_faces := total_faces m + length (filter single (images brq)),
                enrollment_dates := enrollment_dates m @ [now e 1]\<rparr>)"
    unfolding enroll_batch_success[OF conjunct1[OF a] pos nr] by simp
next
  assume a: "image_given rq \<and> worker_id_form rq = Integer w \<and> face_encodings rq = [fe] \<and>
    count_list (known_face_ids s) w < MAX_FACES_PER_WORKER cfg"
  then have b: "image_given rq" "worker_id_form rq = Integer w" "face_encodings rq = [fe]"
    "count_list (known_face_ids s) w < MAX_FACES_PER_WORKER cfg" by simp_all
  show "\<exists>m'. known_face_metadata (fst (snd (enroll cfg e rq (s, f)))) w = Some m' \<and>
         enrollment_dates m' =
           (case known_face_metadata s w of
              None \<Rightarrow> [now e 2]
            | Some m0 \<Rightarrow> enrollment_dates m0 @ [now e 1])"
    unfolding enroll_success[OF b] by (simp split: option.splits)
next
  have "batch_worker_id (batch_of 42 2) = Integer 42" by (simp add: batch_of_def)
  moreover have "0 < length (filter single (images (batch_of 42 2)))"
    by (simp add: batch_of_single)
  moreover have "save_raises_at (batch_of 42 2) = None" by (simp add: batch_of_def)
  ultimately have "known_face_metadata (fst (snd (enroll_batch env_ok (batch_of 42 2) fresh))) 42 =
     Some \<lparr>first_enrolled = now env_ok 0, last_enrolled = now env_ok 1,
               total_faces = 2, enrollment_dates = [now env_ok 2]\<rparr>"
    using enroll_batch_success[of "batch_of 42 2" 42 env_ok empty_index None]
    by (simp add: fresh_eq batch_of_single empty_index_def)
  then have "known_face_metadata (fst (run CONFIG [EnrollBatch env_ok (batch_of 42 2)] fresh)) 42 =
     Some \<lparr>first_enrolled = now env_ok 0, last_enrolled = now env_ok 1,
               total_faces = 2, enrollment_dates = [now env_ok 2]\<rparr>"
    by simp
  then show "\<exists>rs m'. known_face_metadata (fst (run CONFIG rs fresh)) 42 = Some m' \<and>
       length (enrollment_dates m') < total_faces m'"
    by (intro exI[of _ "[EnrollBatch env_ok (batch_of 42 2)]"] exI) auto
qed

theorem enrollment_dates_per_call_witness:
  "known_face_metadata (fst (snd (enroll_batch env_ok (batch_of 42 2)
       (snd (enroll CONFIG env_ok (one_face 42) fresh))))) 42 =
     Some \<lparr>first_enrolled = ''t0'', last_enrolled = ''t0'', total_faces = 3,
           enrollment_dates = [''t2'', ''t1'']\<rparr>"
proof -
  let ?s = "fst (snd (enroll CONFIG env_ok (one_face 42) fresh))"
  let ?f = "snd (snd (enroll CONFIG env_ok (one_face 42) fresh))"
  let ?m = "\<lparr>first_enrolled = ''t0'', last_enrolled = ''t1'', total_faces = 1,
                  enrollment_dates = [''t2'']\<rparr>"
  have h: "batch_worker_id (batch_of 42 2) = Integer 42 \<and> known_face_metadata ?s 42 = Some ?m \<and>
    1 \<le> length (filter single (images (batch_of 42 2))) \<and>
    save_raises_at (batch_of 42 2) = None"
    by (simp add: one_enrolled batch_of_single) (simp add: batch_of_def)
  from enrollment_dates_per_call[of "batch_of 42 2" 42 ?s ?m env_ok ?f] h
  have "known_face_metadata (fst (snd (enroll_batch env_ok (batch_of 42 2) (?s, ?f)))) 42 =
        Some (?m\<lparr>last_enrolled := now env_ok 0,
                total_faces := total_faces ?m + length (filter single (images (batch_of 42 2))),
                enrollment_dates := enrollment_dates ?m @ [now env_ok 1]\<rparr>)"
    by blast
  then show ?thesis by (simp add: batch_of_single env_ok_def clock_def)
qed

subsection \<open>Deleting a worker's faces\<close>

lemma indices_of_snoc:
  "indices_of w (xs @ [x]) = indices_of w xs @ (if x = w then [length xs] else [])"
proof -
  have "filter (\<lambda>i. (xs @ [x]) ! i = w) [0..<length xs] = filter (\<lambda>i. xs ! i = w) [0..<length xs]"
    by (rule filter_cong) (auto simp: nth_append)
  then show ?thesis by (simp add: indices_of_def)
qed

lemma length_indices_of: "length (indices_of w ids) = count_list ids w"
proof (induction ids rule: rev_induct)
  case Nil
  show ?case by (simp add: indices_of_def)
next
  case (snoc x xs)
  then show ?case by (simp add: indices_of_snoc)
qed

lemma sort_indices_of: "sort (indices_of w ids) = indices_of w ids"
  by (rule sorted_sort_id) (simp add: indices_of_def sorted_wrt_filter)

lemma pop_loop_append:
  "pop_loop js \<lparr>known_face_encodings = es, known_face_ids = vs, known_face_metadata = m\<rparr> =
     (None, \<lparr>known_face_encodings = es', known_face_ids = vs', known_face_metadata = m\<rparr>) \<Longrightarrow>
   pop_loop js \<lparr>known_face_encodings = es @ a, known_face_ids = vs @ b, known_face_metadata = m\<rparr> =
     (None, \<lparr>known_face_encodings = es' @ a, known_face_ids = vs' @ b, known_face_metadata = m\<rparr>)"
proof (induction js arbitrary: es vs)
  case Nil
  then show ?case by simp
next
  case (Cons j js)
  from Cons.prems have j: "j < length es" "j < length vs"
    by (auto simp: list_pop_def split: if_splits)
  from Cons.prems j have
    "pop_loop js \<lparr>known_face_encodings = take j es @ drop (Suc j) es,
        known_face_ids = take j vs @ drop (Suc j) vs, known_face_metadata = m\<rparr> =
     (None, \<lparr>known_face_encodings = es', known_face_ids = vs', known_face_metadata = m\<rparr>)"
    by (simp add: list_pop_def)
  from Cons.IH[OF this] j show ?case by (simp add: list_pop_def)
qed

lemma pop_loop_removes:
  "length es = length vs \<Longrightarrow>
   pop_loop (rev (indices_of w vs))
     \<lparr>known_face_encodings = es, known_face_ids = vs, known_face_metadata = m\<rparr> =
   (None, \<lparr>known_face_encodings = map fst (filter (\<lambda>(enc, v). v \<noteq> w) (zip es vs)),
           known_face_ids = filter (\<lambda>v. v \<noteq> w) vs, known_face_metadata = m\<rparr>)"
proof (induction vs arbitrary: es rule: rev_induct)
  case Nil
  then show ?case by (simp add: indices_of_def)
next
  case (snoc v vs)
  then obtain es0 e0 where es: "es = es0 @ [e0]" and len: "length es0 = length vs"
    by (cases es rule: rev_cases) auto
  note IH = snoc.IH[OF len]
  show ?case
  proof (cases "v = w")
    case True
    then show ?thesis using IH len
      by (simp add: es indices_of_snoc list_pop_def)
  next
    case False
    from pop_loop_append[OF IH, of "[e0]" "[v]"] False len
    show ?thesis by (simp add: es indices_of_snoc)
  qed
qed

lemma count_list_filter_neq:
  "count_list (filter (\<lambda>v. v \<noteq> w) vs) u = (if u = w then 0 else count_list vs u)"
  by (induction vs) auto

lemma delete_found:
  assumes len: "length (known_face_encodings s) = length (known_face_ids s)"
    and pos: "0 < count_list (known_face_ids s) w"
  shows "delete_worker_faces e w (s, f) =
     (Deleted w (count_list (known_face_ids s) w),
      \<lparr>known_face_encodings = map fst (filter (\<lambda>(enc, v). v \<noteq> w) (records s)),
       known_face_ids = filter (\<lambda>v. v \<noteq> w) (known_face_ids s),
       known_face_metadata = (known_face_metadata s)(w := None)\<rparr>,
      snd (save_known_faces (disk e) (now e 0)
        \<lparr>known_face_encodings = map fst (filter (\<lambda>(enc, v). v \<noteq> w) (records s)),
         known_face_ids = filter (\<lambda>v. v \<noteq> w) (known_face_ids s),
         known_face_metadata = (known_face_metadata s)(w := None)\<rparr> f))"
proof -
  obtain es vs m where s: "s = \<lparr>known_face_encodings = es, known_face_ids = vs,
      known_face_metadata = m\<rparr>"
    by (cases s) auto
  have len': "length es = length vs" using len by (simp add: s)
  have ne: "indices_of w vs \<noteq> []"
    using pos length_indices_of[of w vs] by (auto simp: s)
  show ?thesis using ne
    by (simp add: delete_worker_faces_def Let_def length_indices_of sort_indices_of s
        pop_loop_removes[OF len'] records_def)
qed

lemma delete_not_found:
  "count_list (known_face_ids s) w = 0 \<Longrightarrow>
   delete_worker_faces e w (s, f) = (DeleteNotFound, s, f)"
  using length_indices_of[of w "known_face_ids s"]
  by (simp add: delete_worker_faces_def Let_def)

lemma records_filter:
  "length es = length vs \<Longrightarrow>
   zip (map fst (filter (\<lambda>(enc, v). v \<noteq> w) (zip es vs))) (filter (\<lambda>v. v \<noteq> w) vs) =
   filter (\<lambda>(enc, v). v \<noteq> w) (zip es vs)"
  by (induction es vs rule: list_induct2) auto

lemma length_records_filter:
  "length es = length vs \<Longrightarrow>
   length (filter (\<lambda>(enc, v). v \<noteq> w) (zip es vs)) = length (filter (\<lambda>v. v \<noteq> w) vs)"
  by (induction es vs rule: list_induct2) auto

text \<open>
  Claim C6. With the two lists in lock-step: for a worker with at least one record,
  \<open>delete_worker_faces\<close> answers with the number of that worker's records, removes exactly
  those records (the remaining pairs of encoding and worker keep their pairing and their
  order), deletes the worker's metadata entry, and a second call for the same worker is
  answered \<open>DeleteNotFound\<close> and changes nothing. For a worker without records the call is
  answered \<open>DeleteNotFound\<close> and changes nothing.
\<close>

theorem delete_worker_faces_removes:
  assumes "length (known_face_encodings s) = length (known_face_ids s)"
  shows "(0 < count_list (known_face_ids s) w \<longrightarrow>
            (\<exists>s' f'. delete_worker_faces e w (s, f) =
                       (Deleted w (count_list (known_face_ids s) w), s', f') \<and>
               records s' = filter (\<lambda>(enc, v). v \<noteq> w) (records s) \<and>
               length (known_face_encodings s') = length (known_face_ids s') \<and>
               known_face_ids s' = filter (\<lambda>v. v \<noteq> w) (known_face_ids s) \<and>
               known_face_metadata s' = (known_face_metadata s)(w := None) \<and>
               delete_worker_faces e' w (s', f') = (DeleteNotFound, s', f'))) \<and>
         (count_list (known_face_ids s) w = 0 \<longrightarrow>
            delete_worker_faces e w (s, f) = (DeleteNotFound, s, f))"
proof (intro conjI impI)
  assume pos: "0 < count_list (known_face_ids s) w"
  let ?s' = "\<lparr>known_face_encodings = map fst (filter (\<lambda>(enc, v). v \<noteq> w) (records s)),
       known_face_ids = filter (\<lambda>v. v \<noteq> w) (known_face_ids s),
       known_face_metadata = (known_face_metadata s)(w := None)\<rparr>"
  let ?f' = "snd (save_known_faces (disk e) (now e 0) ?s' f)"
  have 1: "delete_worker_faces e w (s, f) = (Deleted w (count_list (known_face_ids s) w), ?s', ?f')"
    by (rule delete_found[OF assms pos])
  have 2: "records ?s' = filter (\<lambda>(enc, v). v \<noteq> w) (records s)"
    using records_filter[OF assms, of w] by (simp add: records_def)
  have 3: "length (known_face_encodings ?s') = length (known_face_ids ?s')"
    using length_records_filter[OF assms, of w] by (simp add: records_def)
  have "count_list (known_face_ids ?s') w = 0" by (simp add: count_list_filter_neq)
  then have 4: "delete_worker_faces e' w (?s', ?f') = (DeleteNotFound, ?s', ?f')"
    by (rule delete_not_found)
  from 1 2 3 4 show "\<exists>s' f'. delete_worker_faces e w (s, f) =
                       (Deleted w (count_list (known_face_ids s) w), s', f') \<and>
               records s' = filter (\<lambda>(enc, v). v \<noteq> w) (records s) \<and>
               length (known_face_encodings s') = length (known_face_ids s') \<and>
               known_face_ids s' = filter (\<lambda>v. v \<noteq> w) (known_face_ids s) \<and>
               known_face_metadata s' = (known_face_metadata s)(w := None) \<and>
               delete_worker_faces e' w (s', f') = (DeleteNotFound, s', f')"
    by (intro exI[of _ ?s'] exI[of _ ?f']) simp
next
  assume "count_list (known_face_ids s) w = 0"
  then show "delete_worker_faces e w (s, f) = (DeleteNotFound, s, f)"
    by (rule delete_not_found)
qed

theorem delete_worker_faces_removes_witness:
  "length (known_face_encodings mixed_faces) = length (known_face_ids mixed_faces) \<and>
   (\<exists>s' f'. delete_worker_faces env_ok 42 (mixed_faces, None) = (Deleted 42 2, s', f') \<and>
        records s' = [([0, 1], 7)] \<and>
        delete_worker_faces env_disk_full 42 (s', f') = (DeleteNotFound, s', f')) \<and>
   delete_worker_faces env_ok 9 (mixed_faces, None) = (DeleteNotFound, mixed_faces, None)"
proof -
  have len: "length (known_face_encodings mixed_faces) = length (known_face_ids mixed_faces)"
    by (simp add: mixed_faces_def)
  have c42: "count_list (known_face_ids mixed_faces) 42 = 2"
    and c9: "count_list (known_face_ids mixed_faces) 9 = 0"
    by (simp_all add: mixed_faces_def)
  have r: "filter (\<lambda>(enc, v). v \<noteq> 42) (records mixed_faces) = [([0, 1], 7)]"
    by (simp add: mixed_faces_def records_def)
  from delete_worker_faces_removes[OF len, of 42 env_ok None env_disk_full] c42 r
  have 1: "\<exists>s' f'. delete_worker_faces env_ok 42 (mixed_faces, None) = (Deleted 42 2, s', f') \<and>
        records s' = [([0, 1], 7)] \<and>
        delete_worker_faces env_disk_full 42 (s', f') = (DeleteNotFound, s', f')"
    by auto
  from delete_worker_faces_removes[OF len, of 9 env_ok None env_ok] c9
  have 2: "delete_worker_faces env_ok 9 (mixed_faces, None) = (DeleteNotFound, mixed_faces, None)"
    by simp
  from len 1 2 show ?thesis by blast
qed

subsection \<open>The metadata counts the records\<close>

lemma index_inv_empty: "index_inv empty_index"
  by (simp add: index_inv_def empty_index_def)

lemma index_inv_None:
  "index_inv s \<Longrightarrow> known_face_metadata s w = None \<Longrightarrow> count_list (known_face_ids s) w = 0"
  by (simp add: index_inv_def)

lemma index_inv_Some:
  "index_inv s \<Longrightarrow> known_face_metadata s w = Some m \<Longrightarrow>
   total_faces m = count_list (known_face_ids s) w \<and> 0 < count_list (known_face_ids s) w"
  by (simp add: index_inv_def)

lemma index_inv_length:
  "index_inv s \<Longrightarrow> length (known_face_encodings s) = length (known_face_ids s)"
  by (simp add: index_inv_def)

lemma index_inv_enroll:
  assumes inv: "index_inv s"
  shows "index_inv (fst (snd (enroll cfg e rq (s, f))))"
proof (cases "\<exists>w fe. image_given rq \<and> worker_id_form rq = Integer w \<and> face_encodings rq = [fe] \<and>
        count_list (known_face_ids s) w < MAX_FACES_PER_WORKER cfg")
  case False
  from enroll_failure_unchanged[OF False] assms show ?thesis by simp
next
  case True
  then obtain w fe where a: "image_given rq" "worker_id_form rq = Integer w"
    "face_encodings rq = [fe]" "count_list (known_face_ids s) w < MAX_FACES_PER_WORKER cfg"
    by blast
  show ?thesis
  proof (cases "known_face_metadata s w")
    case None
    with index_inv_None[OF inv] index_inv_Some[OF inv] index_inv_length[OF inv]
    show ?thesis unfolding enroll_success[OF a]
      by (auto simp: index_inv_def)
  next
    case (Some m)
    with index_inv_None[OF inv] index_inv_Some[OF inv] index_inv_length[OF inv]
    show ?thesis unfolding enroll_success[OF a]
      by (auto simp: index_inv_def)
  qed
qed

lemma index_inv_enroll_batch:
  assumes inv: "index_inv s" and nr: "save_raises_at rq = None"
  shows "index_inv (fst (snd (enroll_batch e rq (s, f))))"
proof (cases "batch_worker_id rq")
  case NoValue
  then show ?thesis using inv by (simp add: enroll_batch_def)
next
  case NotAnInteger
  then show ?thesis using inv by (simp add: enroll_batch_def)
next
  case (Integer w)
  show ?thesis
  proof (cases "filter single (images rq) = []")
    case True
    from enroll_batch_none[OF Integer True nr] inv show ?thesis by simp
  next
    case False
    then have pos: "0 < length (filter single (images rq))" by simp
    show ?thesis
    proof (cases "known_face_metadata s w")
      case None
      with index_inv_None[OF inv] index_inv_Some[OF inv] index_inv_length[OF inv] pos
      show ?thesis unfolding enroll_batch_success[OF Integer pos nr]
        by (auto simp: index_inv_def count_list_replicate)
    next
      case (Some m)
      with index_inv_None[OF inv] index_inv_Some[OF inv] index_inv_length[OF inv] pos
      show ?thesis unfolding enroll_batch_success[OF Integer pos nr]
        by (auto simp: index_inv_def count_list_replicate)
    qed
  qed
qed

lemma index_inv_delete:
  assumes inv: "index_inv s"
  shows "index_inv (fst (snd (delete_worker_faces e w (s, f))))"
proof (cases "count_list (known_face_ids s) w = 0")
  case True
  from delete_not_found[OF True] inv show ?thesis by simp
next
  case False
  then have pos: "0 < count_list (known_face_ids s) w" by simp
  from index_inv_None[OF inv] index_inv_Some[OF inv]
    length_records_filter[OF index_inv_length[OF inv], of w]
  show ?thesis unfolding delete_found[OF index_inv_length[OF inv] pos]
    by (auto simp: index_inv_def count_list_filter_neq records_def)
qed

lemma face_index_eta:
  "\<lparr>known_face_encodings = known_face_encodings s, known_face_ids = known_face_ids s,
    known_face_metadata = known_face_metadata s\<rparr> = s"
  by simp

lemma load_save_inv:
  "index_inv s \<Longrightarrow> index_inv (snd (load_known_faces f)) \<Longrightarrow>
   index_inv (snd (load_known_faces (snd (save_known_faces d t s f))))"
  by (cases d)
     (simp_all add: save_known_faces_def load_known_faces_def pickle_dump_def open_wb_def
       snapshot_def index_inv_empty face_index_eta)

lemma enroll_file:
  "snd (snd (enroll cfg e rq (s, f))) = f \<or>
   (\<exists>t. snd (snd (enroll cfg e rq (s, f))) =
        snd (save_known_faces (disk e) t (fst (snd (enroll cfg e rq (s, f)))) f))"
  by (auto simp: enroll_def Let_def split: form_int.splits)

lemma enroll_batch_file:
  "snd (snd (enroll_batch e rq (s, f))) = f \<or>
   (\<exists>t. snd (snd (enroll_batch e rq (s, f))) =
        snd (save_known_faces (disk e) t (fst (snd (enroll_batch e rq (s, f)))) f))"
  by (auto simp: enroll_batch_def Let_def split: form_int.splits prod.splits option.splits)

lemma delete_file:
  "snd (snd (delete_worker_faces e w (s, f))) = f \<or>
   (\<exists>t. snd (snd (delete_worker_faces e w (s, f))) =
        snd (save_known_faces (disk e) t (fst (snd (delete_worker_faces e w (s, f)))) f))"
  by (auto simp: delete_worker_faces_def Let_def split: prod.splits option.splits)

lemma service_inv_serve:
  assumes "service_inv st" and "completes r"
  shows "service_inv (serve cfg r st)"
proof -
  obtain s f where st: "st = (s, f)" by (cases st)
  from assms have s: "index_inv s" and f: "index_inv (snd (load_known_faces f))"
    by (simp_all add: service_inv_def st)
  show ?thesis
  proof (cases r)
    case (Enroll e rq)
    have "index_inv (fst (snd (enroll cfg e rq (s, f))))" by (rule index_inv_enroll[OF s])
    with enroll_file[of cfg e rq s f] f load_save_inv
    show ?thesis by (auto simp: service_inv_def st Enroll)
  next
    case (EnrollBatch e rq)
    from assms(2) have "save_raises_at rq = None" by (simp add: EnrollBatch)
    from index_inv_enroll_batch[OF s this]
    have "index_inv (fst (snd (enroll_batch e rq (s, f))))" .
    with enroll_batch_file[of e rq s f] f load_save_inv
    show ?thesis by (auto simp: service_inv_def st EnrollBatch)
  next
    case (DeleteWorkerFaces e w)
    have "index_inv (fst (snd (delete_worker_faces e w (s, f))))" by (rule index_inv_delete[OF s])
    with delete_file[of e w s f] f load_save_inv
    show ?thesis by (auto simp: service_inv_def st DeleteWorkerFaces)
  next
    case Restart
    then show ?thesis using f by (simp add: service_inv_def st)
  qed
qed

lemma service_inv_run:
  "list_all completes rs \<Longrightarrow> service_inv st \<Longrightarrow> service_inv (run cfg rs st)"
  by (induction rs arbitrary: st) (simp_all add: service_inv_serve)

lemma service_inv_fresh: "service_inv fresh"
  by (simp add: service_inv_def fresh_eq load_known_faces_def index_inv_empty)

lemma index_inv_dom: "index_inv s \<Longrightarrow> dom (known_face_metadata s) = set (known_face_ids s)"
proof (rule set_eqI)
  fix w assume inv: "index_inv s"
  show "w \<in> dom (known_face_metadata s) \<longleftrightarrow> w \<in> set (known_face_ids s)"
  proof (cases "known_face_metadata s w")
    case None
    from index_inv_None[OF inv None] have "w \<notin> set (known_face_ids s)"
      by (simp add: count_list_0_iff)
    with None show ?thesis by (simp add: domIff)
  next
    case (Some m)
    from index_inv_Some[OF inv Some] have "w \<in> set (known_face_ids s)"
      using count_list_0_iff[of "known_face_ids s" w] by auto
    with Some show ?thesis by (simp add: domIff)
  qed
qed

lemma index_inv_sum:
  assumes inv: "index_inv s"
  shows "(\<Sum>w\<in>dom (known_face_metadata s). total_faces (the (known_face_metadata s w))) =
         length (known_face_encodings s)"
proof -
  have "(\<Sum>w\<in>dom (known_face_metadata s). total_faces (the (known_face_metadata s w))) =
        (\<Sum>w\<in>dom (known_face_metadata s). count_list (known_face_ids s) w)"
  proof (rule sum.cong)
    fix w assume "w \<in> dom (known_face_metadata s)"
    then obtain m where "known_face_metadata s w = Some m" by auto
    with index_inv_Some[OF inv this]
    show "total_faces (the (known_face_metadata s w)) = count_list (known_face_ids s) w"
      by simp
  qed simp
  also have "\<dots> = length (known_face_ids s)"
    unfolding index_inv_dom[OF inv] by (rule sum_count_set) simp_all
  finally show ?thesis using index_inv_length[OF inv] by simp
qed

text \<open>
  On every path but one the handlers keep the metadata in step with the records: from a
  state that satisfies the service invariant (a freshly started service does), after every
  sequence of enrolments, batch enrolments that run to their end, deletions and restarts,
  every metadata entry's \<open>total_faces\<close> is the number of stored records of its worker,
  every worker with a record has such an entry, and the \<open>total_faces\<close> of all entries sum
  up to the number of records.
\<close>

lemma counts_kept_by_completed_requests:
  assumes "service_inv st" and "list_all completes rs"
  shows "(\<forall>w m. known_face_metadata (fst (run cfg rs st)) w = Some m \<longrightarrow>
            count_list (known_face_ids (fst (run cfg rs st))) w = total_faces m) \<and>
         (\<forall>w\<in>set (known_face_ids (fst (run cfg rs st))).
            \<exists>m. known_face_metadata (fst (run cfg rs st)) w = Some m \<and>
                count_list (known_face_ids (fst (run cfg rs st))) w = total_faces m) \<and>
         (\<Sum>w\<in>dom (known_face_metadata (fst (run cfg rs st))).
            total_faces (the (known_face_metadata (fst (run cfg rs st)) w))) =
           length (known_face_encodings (fst (run cfg rs st)))"
proof -
  from assms have "service_inv (run cfg rs st)" by (simp add: service_inv_run)
  then have inv: "index_inv (fst (run cfg rs st))" by (simp add: service_inv_def)
  have 1: "\<forall>w m. known_face_metadata (fst (run cfg rs st)) w = Some m \<longrightarrow>
        count_list (known_face_ids (fst (run cfg rs st))) w = total_faces m"
    using index_inv_Some[OF inv] by auto
  have 2: "\<forall>w\<in>set (known_face_ids (fst (run cfg rs st))).
        \<exists>m. known_face_metadata (fst (run cfg rs st)) w = Some m \<and>
            count_list (known_face_ids (fst (run cfg rs st))) w = total_faces m"
  proof
    fix w assume "w \<in> set (known_face_ids (fst (run cfg rs st)))"
    then have "w \<in> dom (known_face_metadata (fst (run cfg rs st)))"
      by (simp add: index_inv_dom[OF inv])
    then obtain m where m: "known_face_metadata (fst (run cfg rs st)) w = Some m" by auto
    with index_inv_Some[OF inv m]
    show "\<exists>m. known_face_metadata (fst (run cfg rs st)) w = Some m \<and>
            count_list (known_face_ids (fst (run cfg rs st))) w = total_faces m" by simp
  qed
  from 1 2 index_inv_sum[OF inv] show ?thesis by blast
qed

text \<open>
  Claim C4, evaluated where it fails. A batch for worker 42 with two images of one face
  each is sent to a fresh service, and the write of the second temporary image raises. The
  first round of the loop has then appended a record of worker 42; the handler's
  \<^verbatim>\<open>except\<close> branch answers with status 500 and leaves that record in place, without a
  metadata entry and without a save. Worker 42 is in the index with one record and no
  \<open>total_faces\<close>, and the \<open>total_faces\<close> of all workers sum up to 0 for one record.
\<close>

theorem aborted_batch_leaves_uncounted_record:
  "fst (enroll_batch env_ok aborted_batch fresh) = BatchInternalError \<and>
   known_face_encodings (fst (snd (enroll_batch env_ok aborted_batch fresh))) = [[0, 0]] \<and>
   known_face_ids (fst (snd (enroll_batch env_ok aborted_batch fresh))) = [42] \<and>
   count_list (known_face_ids (fst (snd (enroll_batch env_ok aborted_batch fresh)))) 42 = 1 \<and>
   known_face_metadata (fst (snd (enroll_batch env_ok aborted_batch fresh))) 42 = None \<and>
   (\<Sum>w\<in>dom (known_face_metadata (fst (snd (enroll_batch env_ok aborted_batch fresh)))).
      total_faces
        (the (known_face_metadata (fst (snd (enroll_batch env_ok aborted_batch fresh))) w))) = 0 \<and>
   snd (snd (enroll_batch env_ok aborted_batch fresh)) = None"
proof -
  have loop: "batch_loop 42 (Some 1) 0 (replicate 2 [[0, 0]]) ([], [], 0, 0, []) =
      (Some OSError, [[0, 0]], [42], 1, 0, [(0, Success)])"
    by (simp add: numeral_2_eq_2)
  have "enroll_batch env_ok aborted_batch fresh =
      (BatchInternalError,
       \<lparr>known_face_encodings = [[0, 0]], known_face_ids = [42],
        known_face_metadata = Map.empty\<rparr>, None)"
    using loop by (simp add: enroll_batch_def aborted_batch_def fresh_eq empty_index_def)
  then show ?thesis by simp
qed

end
